theory Spec2Isabelle
  imports Complex_Main "HOL-Library.Log_Nat"
begin

section \<open>Data model of \<^verbatim>\<open>lab/main.py\<close>\<close>

text \<open>
  A cell of a row holds one of the Python values the annotation of \<^verbatim>\<open>Table.__init__\<close>
  lists (\<^verbatim>\<open>str\<close>, \<^verbatim>\<open>int\<close>, \<^verbatim>\<open>float\<close>, \<^verbatim>\<open>bool\<close>, \<^verbatim>\<open>datetime\<close>) or \<^verbatim>\<open>None\<close>, which
  \<^verbatim>\<open>detect_column_types\<close> tests for. The type \<open>'f\<close> is the interpreter's \<^verbatim>\<open>float\<close>;
  the payload of a \<^verbatim>\<open>datetime\<close> is never inspected by the code and is kept as one number.
\<close>

datatype 'f cell =
    VNone
  | VStr string
  | VInt int
  | VFloat 'f
  | VBool bool
  | VDatetime int

text \<open>The type objects stored in \<^verbatim>\<open>column_types\<close>.\<close>

datatype pytype = TStr | TInt | TFloat | TBool | TDatetime

text \<open>
  Every \<^verbatim>\<open>raise\<close> of the module raises \<^verbatim>\<open>ValueError\<close>; the tag records which statement
  raised it. The other exceptions are the interpreter's own: \<^verbatim>\<open>IndexError\<close> from a
  subscript out of range, \<^verbatim>\<open>TypeError\<close> and \<^verbatim>\<open>OverflowError\<close> from \<^verbatim>\<open>float(value)\<close>.
\<close>

datatype message =
    Headers_differ            \<comment> \<open>line 91, \<^verbatim>\<open>concat\<close>\<close>
  | Row_number_out_of_range   \<comment> \<open>line 97, \<^verbatim>\<open>split\<close>\<close>
  | Not_in_list               \<comment> \<open>\<^verbatim>\<open>list.index\<close>, lines 143 and 144\<close>
  | Not_a_float_literal       \<comment> \<open>\<^verbatim>\<open>float(s)\<close> of a string that is no number\<close>
  | Cannot_convert            \<comment> \<open>line 139, \<^verbatim>\<open>_convert_to_numeric\<close>\<close>
  | Cannot_apply_operation    \<comment> \<open>line 152, \<^verbatim>\<open>_apply_operation\<close>\<close>

datatype error = ValueError message | TypeError | IndexError | OverflowError

text \<open>
  Lists are mutable objects: \<^verbatim>\<open>concat\<close> and \<^verbatim>\<open>split\<close> hand the same header list and
  the same row lists to the tables they build, and \<^verbatim>\<open>_apply_operation\<close> appends to them
  in place. The store maps the address of a list object to its contents. There is one
  store for header lists and row lists alike, so that one list object can be the header
  list of a table and a row, or a row twice: a column name in a header list is the
  cell \<open>VStr name\<close>. A table holds the address of its header list, the addresses of its
  rows in order and its own \<^verbatim>\<open>column_types\<close> dictionary. The module only reads the outer
  list \<^verbatim>\<open>table.rows\<close> (it iterates over it, subscripts, slices and concatenates it),
  so the outer list is kept by value. Its entries are lists, where the entries of a
  header list are strings and those of a row are cells, so under the annotations an
  outer list can be the same object as one of those only when it is empty; a table is
  read with the rows it has before a call.

  The entries of a header list are strings by the annotation \<^verbatim>\<open>List[str]\<close>. Where the
  module compares them (line 90, the keys of \<^verbatim>\<open>column_types\<close>, \<^verbatim>\<open>index\<close>) the model
  compares cells as values, which is Python's \<^verbatim>\<open>==\<close> on strings; an entry that is no
  string arises only from an append to a header list that is also a row.
\<close>

type_synonym addr = nat

record 'f heap =
  list_objects :: "addr \<Rightarrow> 'f cell list"

record 'f table =
  headers :: addr
  rows :: "addr list"
  column_types :: "'f cell \<rightharpoonup> pytype"

text \<open>The column names and the rows of a table, read from the store.\<close>

definition header_names :: "'f heap \<Rightarrow> 'f table \<Rightarrow> 'f cell list" where
  "header_names h t = list_objects h (headers t)"

definition row_values :: "'f heap \<Rightarrow> 'f table \<Rightarrow> 'f cell list list" where
  "row_values h t = map (list_objects h) (rows t)"

text \<open>
  \<^verbatim>\<open>Table.__init__\<close> (lines 8 to 11): the two arguments are stored as they are, and
  \<^verbatim>\<open>column_types\<close> is \<^verbatim>\<open>{header: str for header in headers}\<close>.
\<close>

definition Table :: "'f heap \<Rightarrow> addr \<Rightarrow> addr list \<Rightarrow> 'f table" where
  "Table h hdr rs =
     \<lparr>headers = hdr, rows = rs,
      column_types = map_of (map (\<lambda>header. (header, TStr)) (list_objects h hdr))\<rparr>"

subsection \<open>Subscripts and slices\<close>

text \<open>
  \<^verbatim>\<open>xs[i]\<close>: a negative index counts from the end, and an index outside
  \<^verbatim>\<open>[-len(xs), len(xs))\<close> raises \<^verbatim>\<open>IndexError\<close>.
\<close>

definition py_getitem :: "'a list \<Rightarrow> int \<Rightarrow> error + 'a" where
  "py_getitem xs i =
     (if 0 \<le> i \<and> i < int (length xs) then Inr (xs ! nat i)
      else if - int (length xs) \<le> i \<and> i < 0 then Inr (xs ! nat (int (length xs) + i))
      else Inl IndexError)"

text \<open>
  A slice bound is clamped into \<^verbatim>\<open>[0, len(xs)]\<close> after a negative one has been counted
  from the end; \<^verbatim>\<open>xs[lo:hi]\<close> is empty when the bounds cross.
\<close>

definition slice_bound :: "nat \<Rightarrow> int \<Rightarrow> nat" where
  "slice_bound n i = (if i < 0 then nat (int n + i) else min (nat i) n)"

definition py_slice :: "'a list \<Rightarrow> int \<Rightarrow> int \<Rightarrow> 'a list" where
  "py_slice xs lo hi =
     (let a = slice_bound (length xs) lo; b = slice_bound (length xs) hi
      in take (b - a) (drop a xs))"

definition py_slice_to :: "'a list \<Rightarrow> int \<Rightarrow> 'a list" where
  "py_slice_to xs hi = take (slice_bound (length xs) hi) xs"

definition py_slice_from :: "'a list \<Rightarrow> int \<Rightarrow> 'a list" where
  "py_slice_from xs lo = drop (slice_bound (length xs) lo) xs"

section \<open>\<^verbatim>\<open>TableOperations\<close>\<close>

subsection \<open>\<^verbatim>\<open>concat\<close> and \<^verbatim>\<open>split\<close>\<close>

text \<open>
  Lines 89 to 92. \<^verbatim>\<open>table1.headers != table2.headers\<close> compares the two lists of
  strings by value; the result shares the header list of \<^verbatim>\<open>table1\<close> and every row list.
\<close>

definition concat_table :: "'f heap \<Rightarrow> 'f table \<Rightarrow> 'f table \<Rightarrow> error + 'f table" where
  "concat_table h table1 table2 =
     (if list_objects h (headers table1) \<noteq> list_objects h (headers table2)
      then Inl (ValueError Headers_differ)
      else Inr (Table h (headers table1) (rows table1 @ rows table2)))"

text \<open>Lines 95 to 98.\<close>

definition split_table :: "'f heap \<Rightarrow> 'f table \<Rightarrow> int \<Rightarrow> error + 'f table \<times> 'f table" where
  "split_table h t row_number =
     (if \<not> (0 \<le> row_number \<and> row_number \<le> int (length (rows t)))
      then Inl (ValueError Row_number_out_of_range)
      else Inr (Table h (headers t) (py_slice_to (rows t) row_number),
                Table h (headers t) (py_slice_from (rows t) row_number)))"

subsection \<open>\<^verbatim>\<open>detect_column_types\<close>\<close>

text \<open>
  \<^verbatim>\<open>isinstance(val, T)\<close> for the four types the function tests. \<^verbatim>\<open>bool\<close> is a subclass
  of \<^verbatim>\<open>int\<close> in Python, so \<^verbatim>\<open>isinstance(True, int)\<close> holds.
\<close>

fun isinstance_int :: "'f cell \<Rightarrow> bool" where
  "isinstance_int (VInt _) = True"
| "isinstance_int (VBool _) = True"
| "isinstance_int _ = False"

fun isinstance_float :: "'f cell \<Rightarrow> bool" where
  "isinstance_float (VFloat _) = True"
| "isinstance_float _ = False"

fun isinstance_bool :: "'f cell \<Rightarrow> bool" where
  "isinstance_bool (VBool _) = True"
| "isinstance_bool _ = False"

fun isinstance_datetime :: "'f cell \<Rightarrow> bool" where
  "isinstance_datetime (VDatetime _) = True"
| "isinstance_datetime _ = False"

text \<open>
  Line 103: \<^verbatim>\<open>[row[col_index] for row in table.rows if row[col_index] is not None]\<close>.
  The subscript raises \<^verbatim>\<open>IndexError\<close> at the first row that is too short.
\<close>

fun col_values :: "'f heap \<Rightarrow> int \<Rightarrow> addr list \<Rightarrow> error + 'f cell list" where
  "col_values h col_index [] = Inr []"
| "col_values h col_index (r # rs) =
     (case py_getitem (list_objects h r) col_index of
        Inl e \<Rightarrow> Inl e
      | Inr v \<Rightarrow>
          (case col_values h col_index rs of
             Inl e \<Rightarrow> Inl e
           | Inr vs \<Rightarrow> Inr (if v \<noteq> VNone then v # vs else vs)))"

text \<open>Lines 104 to 113: the \<^verbatim>\<open>if\<close>/\<^verbatim>\<open>elif\<close> chain, in the order of the source.\<close>

definition chosen_type :: "'f cell list \<Rightarrow> pytype" where
  "chosen_type vs =
     (if list_all isinstance_int vs then TInt
      else if list_all isinstance_float vs then TFloat
      else if list_all isinstance_bool vs then TBool
      else if list_all isinstance_datetime vs then TDatetime
      else TStr)"

text \<open>
  The loop of line 102 over \<^verbatim>\<open>enumerate(table.headers)\<close>. Each round assigns
  \<^verbatim>\<open>table.column_types[header]\<close>; an \<^verbatim>\<open>IndexError\<close> leaves the assignments of the
  earlier rounds in the dictionary.
\<close>

fun detect_loop ::
  "'f heap \<Rightarrow> addr list \<Rightarrow> (nat \<times> 'f cell) list \<Rightarrow> ('f cell \<rightharpoonup> pytype)
     \<Rightarrow> (error + unit) \<times> ('f cell \<rightharpoonup> pytype)" where
  "detect_loop h rs [] ct = (Inr (), ct)"
| "detect_loop h rs ((col_index, header) # cols) ct =
     (case col_values h (int col_index) rs of
        Inl e \<Rightarrow> (Inl e, ct)
      | Inr vs \<Rightarrow> detect_loop h rs cols (ct(header \<mapsto> chosen_type vs)))"

text \<open>
  The function returns nothing and mutates the table's dictionary: the model returns the
  outcome (an exception or \<^verbatim>\<open>None\<close>) and the table after the call.
\<close>

definition detect_column_types :: "'f heap \<Rightarrow> 'f table \<Rightarrow> (error + unit) \<times> 'f table" where
  "detect_column_types h t =
     (case detect_loop h (rows t) (List.enumerate 0 (list_objects h (headers t)))
             (column_types t) of
        (outcome, ct) \<Rightarrow> (outcome, t\<lparr>column_types := ct\<rparr>))"

subsection \<open>Column arithmetic\<close>

text \<open>
  The arithmetic of \<^verbatim>\<open>float\<close> belongs to the interpreter, not to the module, so the
  model takes it as a parameter: the conversions \<^verbatim>\<open>float(s)\<close> of a string (\<open>None\<close> where
  it raises \<^verbatim>\<open>ValueError\<close>) and \<^verbatim>\<open>float(n)\<close> of an integer (\<open>None\<close> where it raises
  \<^verbatim>\<open>OverflowError\<close>), the four operators (\<^verbatim>\<open>x / y\<close> is only ever evaluated by the module
  where \<^verbatim>\<open>y != 0\<close>), the test \<^verbatim>\<open>y != 0\<close> and the value of \<^verbatim>\<open>float('inf')\<close>.
\<close>

record 'f float_ops =
  float_of_str :: "string \<Rightarrow> 'f option"
  float_of_int :: "int \<Rightarrow> 'f option"
  float_add :: "'f \<Rightarrow> 'f \<Rightarrow> 'f"
  float_sub :: "'f \<Rightarrow> 'f \<Rightarrow> 'f"
  float_mul :: "'f \<Rightarrow> 'f \<Rightarrow> 'f"
  float_truediv :: "'f \<Rightarrow> 'f \<Rightarrow> 'f"
  float_ne_zero :: "'f \<Rightarrow> bool"
  float_inf :: "'f"

text \<open>
  \<^verbatim>\<open>float(value)\<close> on a cell: a string is parsed, an \<^verbatim>\<open>int\<close> or a \<^verbatim>\<open>bool\<close> is converted,
  a \<^verbatim>\<open>float\<close> is returned as it is, and \<^verbatim>\<open>None\<close> or a \<^verbatim>\<open>datetime\<close> raises \<^verbatim>\<open>TypeError\<close>.
\<close>

definition py_float :: "('f, 'x) float_ops_scheme \<Rightarrow> 'f cell \<Rightarrow> error + 'f" where
  "py_float F value =
     (case value of
        VStr s \<Rightarrow> (case float_of_str F s of None \<Rightarrow> Inl (ValueError Not_a_float_literal) | Some x \<Rightarrow> Inr x)
      | VInt n \<Rightarrow> (case float_of_int F n of None \<Rightarrow> Inl OverflowError | Some x \<Rightarrow> Inr x)
      | VBool b \<Rightarrow>
          (case float_of_int F (if b then 1 else 0) of None \<Rightarrow> Inl OverflowError | Some x \<Rightarrow> Inr x)
      | VFloat x \<Rightarrow> Inr x
      | VNone \<Rightarrow> Inl TypeError
      | VDatetime _ \<Rightarrow> Inl TypeError)"

text \<open>
  Lines 135 to 139, at \<^verbatim>\<open>target_type = float\<close> (the only call): a \<^verbatim>\<open>ValueError\<close> is
  caught and raised again with the module's message; any other exception passes.
\<close>

definition convert_to_numeric :: "('f, 'x) float_ops_scheme \<Rightarrow> 'f cell \<Rightarrow> error + 'f" where
  "convert_to_numeric F value =
     (case py_float F value of
        Inl (ValueError _) \<Rightarrow> Inl (ValueError Cannot_convert)
      | Inl e \<Rightarrow> Inl e
      | Inr x \<Rightarrow> Inr x)"

text \<open>A column argument is \<^verbatim>\<open>Union[int, str]\<close>.\<close>

datatype column = Index int | Name string

text \<open>\<^verbatim>\<open>xs.index(x)\<close>: the first position of \<open>x\<close>, \<^verbatim>\<open>ValueError\<close> when there is none.\<close>

fun list_index :: "'a list \<Rightarrow> 'a \<Rightarrow> nat option" where
  "list_index [] x = None"
| "list_index (y # ys) x =
     (if y = x then Some 0 else map_option Suc (list_index ys x))"

text \<open>
  Lines 143 and 144: an \<^verbatim>\<open>int\<close> is taken as the position without any check, a name is
  looked up in \<^verbatim>\<open>table.headers\<close> (a string equals no entry that is not a string).
\<close>

definition column_index :: "'f heap \<Rightarrow> 'f table \<Rightarrow> column \<Rightarrow> error + int" where
  "column_index h t c =
     (case c of
        Index i \<Rightarrow> Inr i
      | Name s \<Rightarrow>
          (case list_index (list_objects h (headers t)) (VStr s) of
             None \<Rightarrow> Inl (ValueError Not_in_list)
           | Some k \<Rightarrow> Inr (int k)))"

text \<open>
  The handler of line 151 catches \<^verbatim>\<open>ValueError\<close> and \<^verbatim>\<open>TypeError\<close> only. Its message
  evaluates \<^verbatim>\<open>row[col_index1]\<close> and \<^verbatim>\<open>row[col_index2]\<close> again, which can raise
  \<^verbatim>\<open>IndexError\<close> in its turn.
\<close>

definition except_handler :: "'a list \<Rightarrow> int \<Rightarrow> int \<Rightarrow> error \<Rightarrow> error" where
  "except_handler row col_index1 col_index2 e =
     (let raised =
        (case py_getitem row col_index1 of
           Inl e1 \<Rightarrow> e1
         | Inr _ \<Rightarrow>
             (case py_getitem row col_index2 of
                Inl e2 \<Rightarrow> e2
              | Inr _ \<Rightarrow> ValueError Cannot_apply_operation))
      in case e of ValueError _ \<Rightarrow> raised | TypeError \<Rightarrow> raised | _ \<Rightarrow> e)"

text \<open>Lines 147 to 152: the body of the first loop, for one row.\<close>

definition row_result ::
  "('f, 'x) float_ops_scheme \<Rightarrow> ('f \<Rightarrow> 'f \<Rightarrow> 'f) \<Rightarrow> 'f cell list \<Rightarrow> int \<Rightarrow> int \<Rightarrow> error + 'f" where
  "row_result F operation row col_index1 col_index2 =
     (case py_getitem row col_index1 of
        Inl e \<Rightarrow> Inl (except_handler row col_index1 col_index2 e)
      | Inr c1 \<Rightarrow>
          (case convert_to_numeric F c1 of
             Inl e \<Rightarrow> Inl (except_handler row col_index1 col_index2 e)
           | Inr val1 \<Rightarrow>
               (case py_getitem row col_index2 of
                  Inl e \<Rightarrow> Inl (except_handler row col_index1 col_index2 e)
                | Inr c2 \<Rightarrow>
                    (case convert_to_numeric F c2 of
                       Inl e \<Rightarrow> Inl (except_handler row col_index1 col_index2 e)
                     | Inr val2 \<Rightarrow> Inr (operation val1 val2)))))"

text \<open>Lines 145 to 152: the first loop, which only reads the store.\<close>

fun result_values ::
  "('f, 'x) float_ops_scheme \<Rightarrow> ('f \<Rightarrow> 'f \<Rightarrow> 'f) \<Rightarrow> 'f heap \<Rightarrow> int \<Rightarrow> int \<Rightarrow> addr list
     \<Rightarrow> error + 'f list" where
  "result_values F operation h col_index1 col_index2 [] = Inr []"
| "result_values F operation h col_index1 col_index2 (r # rs) =
     (case row_result F operation (list_objects h r) col_index1 col_index2 of
        Inl e \<Rightarrow> Inl e
      | Inr v \<Rightarrow>
          (case result_values F operation h col_index1 col_index2 rs of
             Inl e \<Rightarrow> Inl e
           | Inr vs \<Rightarrow> Inr (v # vs)))"

text \<open>
  Lines 154 and 155: \<^verbatim>\<open>table.rows[i].append(value)\<close> for each result in turn. The list
  object at the address is changed, so a row that stands twice in \<^verbatim>\<open>table.rows\<close> is
  appended to twice, and a row that is also the header list already ends with the
  result name of line 153.
\<close>

fun append_results :: "'f heap \<Rightarrow> addr list \<Rightarrow> 'f list \<Rightarrow> 'f heap" where
  "append_results h (r # rs) (v # vs) =
     append_results (h\<lparr>list_objects := (list_objects h)(r := list_objects h r @ [VFloat v])\<rparr>)
       rs vs"
| "append_results h _ _ = h"

text \<open>
  Lines 142 to 155. The result is the outcome and the store after the call: the store
  is the one before the call when an exception leaves the function.
\<close>

definition apply_operation ::
  "('f, 'x) float_ops_scheme \<Rightarrow> 'f heap \<Rightarrow> 'f table \<Rightarrow> column \<Rightarrow> column \<Rightarrow> string
     \<Rightarrow> ('f \<Rightarrow> 'f \<Rightarrow> 'f) \<Rightarrow> (error + unit) \<times> 'f heap" where
  "apply_operation F h t column1 column2 result_column operation =
     (case column_index h t column1 of
        Inl e \<Rightarrow> (Inl e, h)
      | Inr col_index1 \<Rightarrow>
          (case column_index h t column2 of
             Inl e \<Rightarrow> (Inl e, h)
           | Inr col_index2 \<Rightarrow>
               (case result_values F operation h col_index1 col_index2 (rows t) of
                  Inl e \<Rightarrow> (Inl e, h)
                | Inr vs \<Rightarrow>
                    (Inr (),
                     append_results
                       (h\<lparr>list_objects :=
                            (list_objects h)
                              (headers t := list_objects h (headers t) @ [VStr result_column])\<rparr>)
                       (rows t) vs))))"

text \<open>Lines 158 to 171: the lambdas of the four operations, then the operations.\<close>

definition add_operation :: "('f, 'x) float_ops_scheme \<Rightarrow> 'f \<Rightarrow> 'f \<Rightarrow> 'f" where
  "add_operation F = (\<lambda>x y. float_add F x y)"

definition sub_operation :: "('f, 'x) float_ops_scheme \<Rightarrow> 'f \<Rightarrow> 'f \<Rightarrow> 'f" where
  "sub_operation F = (\<lambda>x y. float_sub F x y)"

definition mul_operation :: "('f, 'x) float_ops_scheme \<Rightarrow> 'f \<Rightarrow> 'f \<Rightarrow> 'f" where
  "mul_operation F = (\<lambda>x y. float_mul F x y)"

definition div_operation :: "('f, 'x) float_ops_scheme \<Rightarrow> 'f \<Rightarrow> 'f \<Rightarrow> 'f" where
  "div_operation F = (\<lambda>x y. if float_ne_zero F y then float_truediv F x y else float_inf F)"

definition add ::
  "('f, 'x) float_ops_scheme \<Rightarrow> 'f heap \<Rightarrow> 'f table \<Rightarrow> column \<Rightarrow> column \<Rightarrow> string
     \<Rightarrow> (error + unit) \<times> 'f heap" where
  "add F h t column1 column2 result_column =
     apply_operation F h t column1 column2 result_column (add_operation F)"

definition sub ::
  "('f, 'x) float_ops_scheme \<Rightarrow> 'f heap \<Rightarrow> 'f table \<Rightarrow> column \<Rightarrow> column \<Rightarrow> string
     \<Rightarrow> (error + unit) \<times> 'f heap" where
  "sub F h t column1 column2 result_column =
     apply_operation F h t column1 column2 result_column (sub_operation F)"

definition mul ::
  "('f, 'x) float_ops_scheme \<Rightarrow> 'f heap \<Rightarrow> 'f table \<Rightarrow> column \<Rightarrow> column \<Rightarrow> string
     \<Rightarrow> (error + unit) \<times> 'f heap" where
  "mul F h t column1 column2 result_column =
     apply_operation F h t column1 column2 result_column (mul_operation F)"

definition div_table ::
  "('f, 'x) float_ops_scheme \<Rightarrow> 'f heap \<Rightarrow> 'f table \<Rightarrow> column \<Rightarrow> column \<Rightarrow> string
     \<Rightarrow> (error + unit) \<times> 'f heap" where
  "div_table F h t column1 column2 result_column =
     apply_operation F h t column1 column2 result_column (div_operation F)"

text \<open>
  \<^verbatim>\<open>float(row[col_index])\<close>, the operand of a row as the first loop computes it: the
  cell at the position, converted.
\<close>

definition operand :: "('f, 'x) float_ops_scheme \<Rightarrow> 'f cell list \<Rightarrow> int \<Rightarrow> error + 'f" where
  "operand F row col_index =
     (case py_getitem row col_index of Inl e \<Rightarrow> Inl e | Inr c \<Rightarrow> py_float F c)"

section \<open>The save adapters\<close>

text \<open>
  \<^verbatim>\<open>str(n)\<close> of an integer, used by the f-string of the part path.
\<close>

fun str_nat :: "nat \<Rightarrow> string" where
  "str_nat n =
     (if n < 10 then [''0123456789'' ! n]
      else str_nat (n div 10) @ [''0123456789'' ! (n mod 10)])"

declare str_nat.simps [simp del]

definition str_int :: "int \<Rightarrow> string" where
  "str_int i = (if i < 0 then CHR ''-'' # str_nat (nat (- i)) else str_nat (nat i))"

text \<open>
  What a call writes: the files in the order they are opened, each with its path and
  what is handed to the writer. \<^verbatim>\<open>CSVModule.save_table\<close> writes the header row and
  then the rows; \<^verbatim>\<open>PickleModule.save_table\<close> dumps a \<^verbatim>\<open>Table\<close> object. The encoding of a
  cell by \<^verbatim>\<open>csv.writer\<close> or by \<^verbatim>\<open>pickle\<close> and the failures of \<^verbatim>\<open>open\<close> are outside the model.
\<close>

record 'f csv_file =
  csv_header :: "'f cell list"
  csv_rows :: "'f cell list list"

record 'f pickled_table =
  pickled_headers :: "'f cell list"
  pickled_rows :: "'f cell list list"
  pickled_column_types :: "'f cell \<rightharpoonup> pytype"

definition pickle_dump :: "'f heap \<Rightarrow> 'f table \<Rightarrow> 'f pickled_table" where
  "pickle_dump h t =
     \<lparr>pickled_headers = list_objects h (headers t),
      pickled_rows = map (list_objects h) (rows t),
      pickled_column_types = column_types t\<rparr>"

text \<open>
  Lines 42 to 55. \<^verbatim>\<open>if max_rows:\<close> is false for \<^verbatim>\<open>None\<close> and for \<^verbatim>\<open>0\<close>, true for any
  other integer; \<^verbatim>\<open>//\<close> is floor division, as \<open>div\<close> on \<open>int\<close> is; \<^verbatim>\<open>range(num_files)\<close>
  is empty when \<^verbatim>\<open>num_files\<close> is not positive.
\<close>

definition csv_save_table ::
  "'f heap \<Rightarrow> 'f table \<Rightarrow> string \<Rightarrow> int option \<Rightarrow> (string \<times> 'f csv_file) list" where
  "csv_save_table h t file_path max_rows =
     (if max_rows \<noteq> None \<and> max_rows \<noteq> Some 0 then
        (let m = the max_rows;
             num_files = (int (length (rows t)) + m - 1) div m
         in map (\<lambda>i. (file_path @ ''_part'' @ str_int (int i + 1) @ ''.csv'',
                       \<lparr>csv_header = list_objects h (headers t),
                        csv_rows = map (list_objects h)
                          (py_slice (rows t) (int i * m) ((int i + 1) * m))\<rparr>))
              [0 ..< nat num_files])
      else
        [(file_path,
          \<lparr>csv_header = list_objects h (headers t),
           csv_rows = map (list_objects h) (rows t)\<rparr>)])"

text \<open>Lines 75 to 84.\<close>

definition pickle_save_table ::
  "'f heap \<Rightarrow> 'f table \<Rightarrow> string \<Rightarrow> int option \<Rightarrow> (string \<times> 'f pickled_table) list" where
  "pickle_save_table h t file_path max_rows =
     (if max_rows \<noteq> None \<and> max_rows \<noteq> Some 0 then
        (let m = the max_rows;
             num_files = (int (length (rows t)) + m - 1) div m
         in map (\<lambda>i. (file_path @ ''_part'' @ str_int (int i + 1) @ ''.pkl'',
                       pickle_dump h
                         (Table h (headers t)
                            (py_slice (rows t) (int i * m) ((int i + 1) * m)))))
              [0 ..< nat num_files])
      else [(file_path, pickle_dump h t)])"

section \<open>The arithmetic of \<^verbatim>\<open>float\<close>\<close>

text \<open>
  The values of an IEEE 754 binary64 number, which CPython's \<^verbatim>\<open>float\<close> is: a finite
  value is kept as the rational it denotes (\<open>Finite 0\<close> is \<^verbatim>\<open>0.0\<close>, \<open>NegZero\<close> is
  \<^verbatim>\<open>-0.0\<close>), next to the two infinities and \<^verbatim>\<open>nan\<close>.
\<close>

datatype binary64 = Finite rat | NegZero | PosInf | NegInf | NaN

text \<open>
  Rounding an exact result to the nearest binary64 value, ties to the even significand:
  53 bits of precision, the least exponent of a unit in the last place is \<open>-1074\<close>, and
  a result that rounds to \<open>2 ^ 1024\<close> or beyond overflows. \<open>ilog2 q\<close> is
  \<open>\<lfloor>log\<^sub>2 q\<rfloor>\<close> for a positive \<open>q\<close>.
\<close>

definition pow2 :: "int \<Rightarrow> rat" where
  "pow2 e = (if 0 \<le> e then 2 ^ nat e else 1 / 2 ^ nat (- e))"

definition round_half_even :: "rat \<Rightarrow> int" where
  "round_half_even x =
     (let f = \<lfloor>x\<rfloor>; d = x - of_int f
      in if d < 1 / 2 then f else if 1 / 2 < d then f + 1 else if even f then f else f + 1)"

definition ilog2 :: "rat \<Rightarrow> int" where
  "ilog2 q =
     (case quotient_of q of
        (n, d) \<Rightarrow>
          (let e = bitlen n - bitlen d
           in if pow2 e \<le> q then e else e - 1))"

definition round_magnitude :: "rat \<Rightarrow> rat option" where
  "round_magnitude q =
     (let u = max (ilog2 q - 52) (- 1074);
          r = of_int (round_half_even (q / pow2 u)) * pow2 u
      in if 1024 \<le> ilog2 r then None else Some r)"

definition round64 :: "rat \<Rightarrow> binary64" where
  "round64 q =
     (if q = 0 then Finite 0
      else if 0 < q then (case round_magnitude q of None \<Rightarrow> PosInf | Some r \<Rightarrow> Finite r)
      else (case round_magnitude (- q) of
              None \<Rightarrow> NegInf
            | Some r \<Rightarrow> if r = 0 then NegZero else Finite (- r)))"




text \<open>
  The four operators compute the exact result and round it once. At a zero divisor,
  where Python's \<^verbatim>\<open>/\<close> raises \<^verbatim>\<open>ZeroDivisionError\<close>, \<open>b64_truediv\<close> has the IEEE value;
  the module never divides there.
\<close>

fun finite_value :: "binary64 \<Rightarrow> rat option" where
  "finite_value (Finite q) = Some q"
| "finite_value NegZero = Some 0"
| "finite_value _ = None"

fun sign_bit :: "binary64 \<Rightarrow> bool" where
  "sign_bit (Finite q) = (q < 0)"
| "sign_bit NegZero = True"
| "sign_bit NegInf = True"
| "sign_bit _ = False"

definition signed_zero :: "bool \<Rightarrow> binary64" where
  "signed_zero s = (if s then NegZero else Finite 0)"

definition signed_inf :: "bool \<Rightarrow> binary64" where
  "signed_inf s = (if s then NegInf else PosInf)"

fun b64_neg :: "binary64 \<Rightarrow> binary64" where
  "b64_neg (Finite q) = (if q = 0 then NegZero else Finite (- q))"
| "b64_neg NegZero = Finite 0"
| "b64_neg PosInf = NegInf"
| "b64_neg NegInf = PosInf"
| "b64_neg NaN = NaN"

definition b64_add :: "binary64 \<Rightarrow> binary64 \<Rightarrow> binary64" where
  "b64_add x y =
     (if x = NaN \<or> y = NaN then NaN
      else case (finite_value x, finite_value y) of
        (Some a, Some b) \<Rightarrow>
          if a + b = 0 then signed_zero (sign_bit x \<and> sign_bit y) else round64 (a + b)
      | (Some a, None) \<Rightarrow> y
      | (None, Some b) \<Rightarrow> x
      | (None, None) \<Rightarrow> if x = y then x else NaN)"

definition b64_sub :: "binary64 \<Rightarrow> binary64 \<Rightarrow> binary64" where
  "b64_sub x y = b64_add x (b64_neg y)"

definition b64_mul :: "binary64 \<Rightarrow> binary64 \<Rightarrow> binary64" where
  "b64_mul x y =
     (if x = NaN \<or> y = NaN then NaN
      else let s = (sign_bit x \<noteq> sign_bit y) in
        case (finite_value x, finite_value y) of
          (Some a, Some b) \<Rightarrow> if a * b = 0 then signed_zero s else round64 (a * b)
        | (Some a, None) \<Rightarrow> if a = 0 then NaN else signed_inf s
        | (None, Some b) \<Rightarrow> if b = 0 then NaN else signed_inf s
        | (None, None) \<Rightarrow> signed_inf s)"

definition b64_truediv :: "binary64 \<Rightarrow> binary64 \<Rightarrow> binary64" where
  "b64_truediv x y =
     (if x = NaN \<or> y = NaN then NaN
      else let s = (sign_bit x \<noteq> sign_bit y) in
        case (finite_value x, finite_value y) of
          (Some a, Some b) \<Rightarrow>
            if b = 0 then (if a = 0 then NaN else signed_inf s)
            else if a = 0 then signed_zero s
            else round64 (a / b)
        | (Some a, None) \<Rightarrow> signed_zero s
        | (None, Some b) \<Rightarrow> signed_inf s
        | (None, None) \<Rightarrow> NaN)"

text \<open>\<^verbatim>\<open>y != 0\<close>: false for the two zeros only (\<^verbatim>\<open>nan != 0\<close> is true).\<close>

definition b64_ne_zero :: "binary64 \<Rightarrow> bool" where
  "b64_ne_zero x = (finite_value x \<noteq> Some 0)"

text \<open>\<^verbatim>\<open>float(n)\<close> of an \<^verbatim>\<open>int\<close>: rounded, \<^verbatim>\<open>OverflowError\<close> when out of range.\<close>

definition b64_of_int :: "int \<Rightarrow> binary64 option" where
  "b64_of_int n =
     (case round64 (of_int n) of PosInf \<Rightarrow> None | NegInf \<Rightarrow> None | x \<Rightarrow> Some x)"

text \<open>
  \<^verbatim>\<open>float(s)\<close> of a string of ASCII characters: white space is stripped at both ends,
  an underscore may stand between two digits only, then comes an optional sign and
  either \<^verbatim>\<open>inf\<close>, \<^verbatim>\<open>infinity\<close> or \<^verbatim>\<open>nan\<close> in any case, or a decimal literal with an optional
  fraction and exponent. The decimal value is rounded; it never raises on overflow.
\<close>

definition is_space :: "char \<Rightarrow> bool" where
  "is_space c = (let n = (of_char c :: nat) in (9 \<le> n \<and> n \<le> 13) \<or> n = 32)"

definition is_digit :: "char \<Rightarrow> bool" where
  "is_digit c = (let n = (of_char c :: nat) in 48 \<le> n \<and> n \<le> 57)"

definition to_lower :: "char \<Rightarrow> char" where
  "to_lower c = (let n = (of_char c :: nat) in if 65 \<le> n \<and> n \<le> 90 then char_of (n + 32) else c)"

definition strip :: "string \<Rightarrow> string" where
  "strip s = rev (dropWhile is_space (rev (dropWhile is_space s)))"

fun remove_underscores :: "char \<Rightarrow> string \<Rightarrow> string option" where
  "remove_underscores prev [] = (if prev = CHR ''_'' then None else Some [])"
| "remove_underscores prev (c # cs) =
     (if c = CHR ''_'' then (if is_digit prev then remove_underscores c cs else None)
      else if prev = CHR ''_'' \<and> \<not> is_digit c then None
      else map_option ((#) c) (remove_underscores c cs))"

definition digits_value :: "string \<Rightarrow> int" where
  "digits_value ds = foldl (\<lambda>a c. 10 * a + int (of_char c - 48)) 0 ds"

definition pow10 :: "int \<Rightarrow> rat" where
  "pow10 e = (if 0 \<le> e then 10 ^ nat e else 1 / 10 ^ nat (- e))"

definition split_sign :: "string \<Rightarrow> bool \<times> string" where
  "split_sign s =
     (case s of
        [] \<Rightarrow> (False, [])
      | c # cs \<Rightarrow>
          if c = CHR ''-'' then (True, cs) else if c = CHR ''+'' then (False, cs) else (False, s))"

definition parse_decimal :: "string \<Rightarrow> rat option" where
  "parse_decimal s =
     (let ip = takeWhile is_digit s; r1 = dropWhile is_digit s;
          (fp, r2) = (case r1 of
                        [] \<Rightarrow> ([], [])
                      | c # cs \<Rightarrow>
                          if c = CHR ''.'' then (takeWhile is_digit cs, dropWhile is_digit cs)
                          else ([], r1));
          mant = of_int (digits_value (ip @ fp)) * pow10 (- int (length fp))
      in if ip = [] \<and> fp = [] then None
         else case r2 of
           [] \<Rightarrow> Some mant
         | c # cs \<Rightarrow>
             if c = CHR ''e'' \<or> c = CHR ''E'' then
               (case split_sign cs of
                  (eneg, ds) \<Rightarrow>
                    if ds \<noteq> [] \<and> list_all is_digit ds
                    then Some (mant * pow10 (if eneg then - digits_value ds else digits_value ds))
                    else None)
             else None)"

definition b64_of_str :: "string \<Rightarrow> binary64 option" where
  "b64_of_str s =
     (case remove_underscores (CHR 0x00) (strip s) of
        None \<Rightarrow> None
      | Some t \<Rightarrow>
          (case split_sign t of
             (neg, body) \<Rightarrow>
               (let low = map to_lower body in
                if low = ''inf'' \<or> low = ''infinity'' then Some (signed_inf neg)
                else if low = ''nan'' then Some NaN
                else case parse_decimal body of
                  None \<Rightarrow> None
                | Some q \<Rightarrow>
                    Some (if q = 0 then signed_zero neg else round64 (if neg then - q else q)))))"

text \<open>The arithmetic of CPython's \<^verbatim>\<open>float\<close>, as the parameter of the model.\<close>

definition binary64_ops :: "binary64 float_ops" where
  "binary64_ops =
     \<lparr>float_of_str = b64_of_str, float_of_int = b64_of_int,
      float_add = b64_add, float_sub = b64_sub, float_mul = b64_mul,
      float_truediv = b64_truediv, float_ne_zero = b64_ne_zero, float_inf = PosInf\<rparr>"

section \<open>Example tables\<close>

text \<open>
  One store with the lists of a few tables. \<open>people\<close> is the table of the
  specification's example: columns \<^verbatim>\<open>["id", "Age"]\<close> and rows
  \<^verbatim>\<open>[["1", "30"], ["2", "40"]]\<close>, as \<^verbatim>\<open>CSVModule.load_table\<close> reads them (every cell a
  string). \<open>flags\<close> has a column of integers, a column of booleans and a column of
  \<^verbatim>\<open>None\<close>. \<open>stock\<close> has a zero in its second column, and \<open>stock_bad\<close> adds a row whose
  first cell is no number. \<open>people_twice\<close> is what \<^verbatim>\<open>concat(people, people)\<close> returns: each
  row list stands twice in it. \<open>own_header\<close> is \<^verbatim>\<open>Table(h, [h])\<close> for the list
  \<^verbatim>\<open>h = ["1", "2"]\<close>: its only row is its header list.
\<close>

definition example_heap :: "binary64 heap" where
  "example_heap =
     \<lparr>list_objects = (\<lambda>_. [])
        (10 := [VStr ''id'', VStr ''Age''],
         11 := [VStr ''1'', VStr ''30''], 12 := [VStr ''2'', VStr ''40''],
         20 := [VStr ''id'', VStr ''flag'', VStr ''note''],
         21 := [VInt 1, VBool True, VNone], 22 := [VInt 2, VBool False, VNone],
         30 := [VStr ''price'', VStr ''count''],
         31 := [VStr ''3'', VStr ''0''], 32 := [VStr ''n/a'', VStr ''2''],
         40 := [VStr ''1'', VStr ''2''])\<rparr>"

definition people :: "binary64 table" where
  "people = Table example_heap 10 [11, 12]"

definition flags :: "binary64 table" where
  "flags = Table example_heap 20 [21, 22]"

definition stock :: "binary64 table" where
  "stock = Table example_heap 30 [31]"

definition stock_bad :: "binary64 table" where
  "stock_bad = Table example_heap 30 [31, 32]"

definition people_twice :: "binary64 table" where
  "people_twice = Table example_heap 10 [11, 12, 11, 12]"

definition own_header :: "binary64 table" where
  "own_header = Table example_heap 40 [40]"

section \<open>Properties of \<^verbatim>\<open>detect_column_types\<close>\<close>

lemma col_values_all_null:
  "(\<And>a. a \<in> set rs \<Longrightarrow> j < length (list_objects h a) \<and> list_objects h a ! j = VNone)
     \<Longrightarrow> col_values h (int j) rs = Inr []"
  by (induction rs) (auto simp: py_getitem_def)

lemma col_values_in_range:
  "(\<And>a. a \<in> set rs \<Longrightarrow> i < length (list_objects h a))
     \<Longrightarrow> \<exists>vs. col_values h (int i) rs = Inr vs"
  by (induction rs) (auto simp: py_getitem_def)

lemma detect_loop_append:
  "detect_loop h rs (xs @ ys) ct =
     (case detect_loop h rs xs ct of
        (Inl e, ct') \<Rightarrow> (Inl e, ct')
      | (Inr u, ct') \<Rightarrow> detect_loop h rs ys ct')"
  by (induction xs arbitrary: ct) (auto split: sum.splits)

lemma detect_loop_success:
  "(\<And>i name. (i, name) \<in> set cols \<Longrightarrow> \<exists>vs. col_values h (int i) rs = Inr vs)
     \<Longrightarrow> fst (detect_loop h rs cols ct) = Inr ()"
proof (induction cols arbitrary: ct)
  case Nil
  show ?case by simp
next
  case (Cons c cols)
  obtain i name where c: "c = (i, name)" by (cases c)
  from Cons.prems [of i name] c obtain vs where "col_values h (int i) rs = Inr vs" by auto
  moreover have "fst (detect_loop h rs cols (ct(name \<mapsto> chosen_type vs))) = Inr ()"
    by (rule Cons.IH) (use Cons.prems in auto)
  ultimately show ?case using c by simp
qed

lemma detect_loop_frame:
  "name \<notin> snd ` set cols \<Longrightarrow> snd (detect_loop h rs cols ct) name = ct name"
  by (induction cols arbitrary: ct) (auto split: sum.splits)

lemma detect_loop_override:
  "\<exists>out U. \<forall>ct. detect_loop h rs cols ct = (out, ct ++ U)"
proof (induction cols)
  case Nil
  have "\<forall>ct. detect_loop h rs [] ct = (Inr (), ct ++ Map.empty)" by simp
  then show ?case by blast
next
  case (Cons c cols)
  obtain i name where c: "c = (i, name)" by (cases c)
  from Cons.IH obtain out U where IH: "\<And>ct. detect_loop h rs cols ct = (out, ct ++ U)"
    by blast
  show ?case
  proof (cases "col_values h (int i) rs")
    case (Inl e)
    then have "\<forall>ct. detect_loop h rs (c # cols) ct = (Inl e, ct ++ Map.empty)"
      by (simp add: c)
    then show ?thesis by blast
  next
    case (Inr vs)
    have "\<forall>ct. detect_loop h rs (c # cols) ct = (out, ct ++ ([name \<mapsto> chosen_type vs] ++ U))"
      using Inr by (simp add: c IH map_add_upd_left)
    then show ?thesis by blast
  qed
qed

lemma detect_loop_idem:
  "detect_loop h rs cols (snd (detect_loop h rs cols ct)) = detect_loop h rs cols ct"
proof -
  obtain out U where *: "\<And>ct. detect_loop h rs cols ct = (out, ct ++ U)"
    using detect_loop_override by blast
  have "ct ++ U ++ U = ct ++ U"
    by (rule ext) (simp add: map_add_def split: option.splits)
  then show ?thesis by (simp add: *)
qed

lemma column_types_detect:
  "column_types (snd (detect_column_types h t)) =
     snd (detect_loop h (rows t) (List.enumerate 0 (list_objects h (headers t))) (column_types t))"
  by (simp add: detect_column_types_def split: prod.splits)

lemma outcome_detect:
  "fst (detect_column_types h t) =
     fst (detect_loop h (rows t) (List.enumerate 0 (list_objects h (headers t))) (column_types t))"
  by (simp add: detect_column_types_def split: prod.splits)

lemma chosen_type_Nil: "chosen_type [] = TInt"
  by (simp add: chosen_type_def)

lemma detect_loop_no_rows:
  "detect_loop h [] cols ct =
     (Inr (), \<lambda>name. if name \<in> snd ` set cols then Some TInt else ct name)"
proof (induction cols arbitrary: ct)
  case Nil
  show ?case by simp
next
  case (Cons c cols)
  obtain i name where c: "c = (i, name)" by (cases c)
  show ?case by (auto simp: c Cons.IH chosen_type_Nil)
qed

lemma snd_set_enumerate: "snd ` set (List.enumerate n xs) = set xs"
  by (metis list.set_map map_snd_enumerate)

lemma detect_loop_null_column:
  assumes j: "j < length hs"
    and null: "\<And>a. a \<in> set rs \<Longrightarrow> j < length (list_objects h a) \<and> list_objects h a ! j = VNone"
    and later: "hs ! j \<notin> set (drop (Suc j) hs)"
  shows "snd (detect_loop h rs (List.enumerate 0 hs) ct) (hs ! j) = Some TInt"
proof -
  define pre where "pre = List.enumerate 0 (take j hs)"
  define post where "post = List.enumerate (Suc j) (drop (Suc j) hs)"
  have "hs = take j hs @ hs ! j # drop (Suc j) hs"
    using j by (rule id_take_nth_drop)
  then have "List.enumerate 0 hs = List.enumerate 0 (take j hs @ hs ! j # drop (Suc j) hs)"
    by simp
  also have "\<dots> = pre @ (j, hs ! j) # post"
    using j by (simp add: enumerate_append_eq pre_def post_def min_def)
  finally have split: "List.enumerate 0 hs = pre @ (j, hs ! j) # post" .
  have "\<exists>vs. col_values h (int i) rs = Inr vs" if "(i, name) \<in> set pre" for i name
  proof (rule col_values_in_range)
    fix a assume "a \<in> set rs"
    moreover have "i < j" using that by (auto simp: pre_def in_set_enumerate_eq)
    ultimately show "i < length (list_objects h a)" using null [of a] by simp
  qed
  then have pre_ok: "fst (detect_loop h rs pre ct) = Inr ()"
    by (rule detect_loop_success)
  obtain ct1 where ct1: "detect_loop h rs pre ct = (Inr (), ct1)"
    using pre_ok by (cases "detect_loop h rs pre ct") auto
  have col: "col_values h (int j) rs = Inr []"
    using null by (rule col_values_all_null)
  have "hs ! j \<notin> snd ` set post"
    using later by (simp add: post_def snd_set_enumerate)
  then have "snd (detect_loop h rs post (ct1(hs ! j \<mapsto> TInt))) (hs ! j) = Some TInt"
    by (simp add: detect_loop_frame)
  then show ?thesis
    by (simp add: split detect_loop_append ct1 col chosen_type_Nil)
qed

lemma chosen_type_all_bool: "list_all isinstance_bool vs \<Longrightarrow> chosen_type vs = TInt"
proof -
  assume "list_all isinstance_bool vs"
  then have "list_all isinstance_int vs"
    by (induction vs) (auto elim: isinstance_bool.elims)
  then show ?thesis by (simp add: chosen_type_def)
qed

text \<open>
  C1. The claim: a column all of whose non-null values are booleans gets the declared
  type boolean. The code does not do that. \<^verbatim>\<open>isinstance(val, int)\<close> is tried first and
  holds of every \<^verbatim>\<open>bool\<close>, so the branch of line 108 is never reached
  (\<open>chosen_type_all_bool\<close>): on the table \<open>flags\<close>, whose column \<^verbatim>\<open>flag\<close> holds \<^verbatim>\<open>True\<close> and
  \<^verbatim>\<open>False\<close>, the call returns normally and the declared type of \<^verbatim>\<open>flag\<close> is \<^verbatim>\<open>int\<close>.
\<close>

theorem detect_bool_column_is_int:
  "fst (detect_column_types example_heap flags) = Inr ()
   \<and> column_types (snd (detect_column_types example_heap flags)) (VStr ''flag'') = Some TInt"
  by (simp add: example_heap_def flags_def Table_def detect_column_types_def enumerate_eq_zip
      py_getitem_def chosen_type_def)

text \<open>
  C9. \<^verbatim>\<open>detect_column_types\<close> is idempotent: a second call right after the first ends
  as the first did (normally, or with the same exception) and leaves the same table,
  hence the same \<^verbatim>\<open>column_types\<close> dictionary. The rows are in the store, which neither
  call changes.
\<close>

theorem detect_column_types_idempotent:
  "detect_column_types h (snd (detect_column_types h t)) = detect_column_types h t"
proof -
  obtain out ct where l: "detect_loop h (rows t) (List.enumerate 0 (list_objects h (headers t))) (column_types t) = (out, ct)"
    by (cases "detect_loop h (rows t) (List.enumerate 0 (list_objects h (headers t))) (column_types t)")
  have "detect_loop h (rows t) (List.enumerate 0 (list_objects h (headers t))) ct = (out, ct)"
    using detect_loop_idem [of h "rows t" "List.enumerate 0 (list_objects h (headers t))" "column_types t"] l
    by simp
  with l show ?thesis by (simp add: detect_column_types_def)
qed


text \<open>
  C10. A column all of whose cells are \<^verbatim>\<open>None\<close> gets the declared type \<^verbatim>\<open>int\<close>: for the
  column at position \<open>j\<close>, when every row holds \<^verbatim>\<open>None\<close> there (no row at all is the
  vacuous case) and the column's name is not the name of a later column, which would
  overwrite the entry. With zero rows the call returns normally and every column of
  the table is declared \<^verbatim>\<open>int\<close>.
\<close>

theorem detect_null_column_int:
  "(j < length (list_objects h (headers t))
      \<and> (\<forall>a \<in> set (rows t). j < length (list_objects h a) \<and> list_objects h a ! j = VNone)
      \<and> list_objects h (headers t) ! j \<notin> set (drop (Suc j) (list_objects h (headers t)))
    \<longrightarrow> column_types (snd (detect_column_types h t)) (list_objects h (headers t) ! j) = Some TInt)
   \<and> (rows t = []
    \<longrightarrow> fst (detect_column_types h t) = Inr ()
      \<and> (\<forall>name \<in> set (list_objects h (headers t)).
            column_types (snd (detect_column_types h t)) name = Some TInt))"
proof (intro conjI impI)
  assume a: "j < length (list_objects h (headers t))
      \<and> (\<forall>a \<in> set (rows t). j < length (list_objects h a) \<and> list_objects h a ! j = VNone)
      \<and> list_objects h (headers t) ! j \<notin> set (drop (Suc j) (list_objects h (headers t)))"
  then have "snd (detect_loop h (rows t) (List.enumerate 0 (list_objects h (headers t)))
                 (column_types t)) (list_objects h (headers t) ! j) = Some TInt"
    by (intro detect_loop_null_column) auto
  then show "column_types (snd (detect_column_types h t)) (list_objects h (headers t) ! j) = Some TInt"
    by (simp add: column_types_detect)
next
  assume "rows t = []"
  then show "fst (detect_column_types h t) = Inr ()"
    by (simp add: outcome_detect detect_loop_no_rows)
next
  assume "rows t = []"
  then show "\<forall>name \<in> set (list_objects h (headers t)).
            column_types (snd (detect_column_types h t)) name = Some TInt"
    by (simp add: column_types_detect detect_loop_no_rows snd_set_enumerate)
qed

theorem detect_null_column_int_witness:
  "column_types (snd (detect_column_types example_heap flags)) (VStr ''note'') = Some TInt
   \<and> fst (detect_column_types example_heap (Table example_heap 20 [])) = Inr ()
   \<and> column_types (snd (detect_column_types example_heap (Table example_heap 20 []))) (VStr ''flag'')
       = Some TInt"
  using detect_null_column_int [of 2 example_heap flags]
    detect_null_column_int [of 0 example_heap "Table example_heap 20 []"]
  by (simp add: example_heap_def flags_def Table_def)

section \<open>Properties of \<^verbatim>\<open>concat\<close> and \<^verbatim>\<open>split\<close>\<close>

lemma dom_map_of_const: "dom (map_of (map (\<lambda>x. (x, v)) xs)) = set xs"
  by (simp add: dom_map_of_conv_image_fst image_image)

lemma map_of_const: "x \<in> set xs \<Longrightarrow> map_of (map (\<lambda>x. (x, v)) xs) x = Some v"
  by (induction xs) auto

text \<open>
  C5. When the two tables have the same column names in the same order, \<^verbatim>\<open>concat\<close>
  returns a table with the header list of the first (so the same columns), whose rows
  are the rows of the first followed by the rows of the second, and whose
  \<^verbatim>\<open>column_types\<close> has exactly the column names as keys, each declared \<^verbatim>\<open>str\<close>, whatever
  the types of the arguments were. When the column names differ it raises \<^verbatim>\<open>ValueError\<close>.
\<close>

theorem concat_table_spec:
  "(header_names h a = header_names h b \<longrightarrow>
      (\<exists>c. concat_table h a b = Inr c
         \<and> headers c = headers a
         \<and> header_names h c = header_names h a
         \<and> rows c = rows a @ rows b
         \<and> row_values h c = row_values h a @ row_values h b
         \<and> dom (column_types c) = set (header_names h a)
         \<and> (\<forall>name \<in> set (header_names h a). column_types c name = Some TStr)))
   \<and> (header_names h a \<noteq> header_names h b \<longrightarrow>
        concat_table h a b = Inl (ValueError Headers_differ))"
  by (simp add: concat_table_def header_names_def row_values_def Table_def
      dom_map_of_const map_of_const)

theorem concat_table_spec_witness:
  "(\<exists>c. concat_table example_heap people people = Inr c
       \<and> headers c = 10 \<and> rows c = [11, 12, 11, 12]
       \<and> row_values example_heap c =
           [[VStr ''1'', VStr ''30''], [VStr ''2'', VStr ''40''],
            [VStr ''1'', VStr ''30''], [VStr ''2'', VStr ''40'']]
       \<and> column_types c (VStr ''Age'') = Some TStr)
   \<and> concat_table example_heap people flags = Inl (ValueError Headers_differ)"
proof -
  have names: "header_names example_heap people = [VStr ''id'', VStr ''Age'']"
    "header_names example_heap flags = [VStr ''id'', VStr ''flag'', VStr ''note'']"
    by (simp_all add: header_names_def people_def flags_def Table_def example_heap_def)
  have vals: "row_values example_heap people = [[VStr ''1'', VStr ''30''], [VStr ''2'', VStr ''40'']]"
    by (simp add: row_values_def people_def Table_def example_heap_def)
  have fields: "headers people = 10" "rows people = [11, 12]"
    by (simp_all add: people_def Table_def)
  from concat_table_spec [of example_heap people people]
  obtain c where c: "concat_table example_heap people people = Inr c"
    "headers c = headers people" "rows c = rows people @ rows people"
    "row_values example_heap c = row_values example_heap people @ row_values example_heap people"
    "\<forall>name \<in> set (header_names example_heap people). column_types c name = Some TStr"
    by blast
  from c(5) have "column_types c (VStr ''Age'') = Some TStr"
    by (simp add: names)
  with c have first: "\<exists>c. concat_table example_heap people people = Inr c
       \<and> headers c = 10 \<and> rows c = [11, 12, 11, 12]
       \<and> row_values example_heap c =
           [[VStr ''1'', VStr ''30''], [VStr ''2'', VStr ''40''],
            [VStr ''1'', VStr ''30''], [VStr ''2'', VStr ''40'']]
       \<and> column_types c (VStr ''Age'') = Some TStr"
    by (simp add: vals fields)
  from concat_table_spec [of example_heap people flags]
  have "concat_table example_heap people flags = Inl (ValueError Headers_differ)"
    by (simp add: names)
  with first show ?thesis by simp
qed

text \<open>
  C6. For \<open>0 \<le> k \<le> len(rows)\<close>, \<^verbatim>\<open>split\<close> returns two tables that share the header list
  of the argument, whose rows put one after the other are the rows of the argument,
  the first holding \<open>k\<close> rows. For any other \<open>k\<close> it raises \<^verbatim>\<open>ValueError\<close>.
\<close>

theorem split_table_spec:
  "(0 \<le> k \<and> k \<le> int (length (rows t)) \<longrightarrow>
      (\<exists>p1 p2. split_table h t k = Inr (p1, p2)
         \<and> headers p1 = headers t \<and> headers p2 = headers t
         \<and> rows p1 @ rows p2 = rows t
         \<and> row_values h p1 @ row_values h p2 = row_values h t
         \<and> int (length (rows p1)) = k))
   \<and> (\<not> (0 \<le> k \<and> k \<le> int (length (rows t))) \<longrightarrow>
        split_table h t k = Inl (ValueError Row_number_out_of_range))"
proof -
  have "map (list_objects h) (take n (rows t)) @ map (list_objects h) (drop n (rows t))
          = map (list_objects h) (rows t)" for n
    by (simp flip: map_append)
  then show ?thesis
    by (auto simp: split_table_def Table_def py_slice_to_def py_slice_from_def slice_bound_def
          row_values_def)
qed

theorem split_table_spec_witness:
  "(\<exists>p1 p2. split_table example_heap people 1 = Inr (p1, p2)
       \<and> headers p1 = 10 \<and> headers p2 = 10 \<and> rows p1 = [11] \<and> rows p2 = [12])
   \<and> split_table example_heap people 5 = Inl (ValueError Row_number_out_of_range)
   \<and> split_table example_heap people (- 1) = Inl (ValueError Row_number_out_of_range)"
  using split_table_spec [of 1 people example_heap] split_table_spec [of 5 people example_heap]
    split_table_spec [of "- 1" people example_heap]
  by (auto simp: people_def Table_def append_eq_Cons_conv)

section \<open>Properties of the save adapters\<close>

lemma py_slice_chunk:
  assumes "0 < m"
  shows "py_slice xs (int i * m) ((int i + 1) * m) = take (nat m) (drop (i * nat m) xs)"
proof -
  define M where "M = nat m"
  have m: "m = int M" "0 < M" using assms by (simp_all add: M_def)
  have a: "slice_bound (length xs) (int i * m) = min (i * M) (length xs)"
    by (simp add: slice_bound_def m nat_mult_distrib flip: of_nat_mult)
  have "(int i + 1) * m = int ((i + 1) * M)" by (simp add: m algebra_simps)
  then have b: "slice_bound (length xs) ((int i + 1) * m) = min ((i + 1) * M) (length xs)"
    by (simp add: slice_bound_def del: of_nat_mult of_nat_add)
  show ?thesis
  proof (cases "i * M \<le> length xs")
    case True
    then show ?thesis
      unfolding py_slice_def Let_def a b M_def [symmetric]
      by (cases "(i + 1) * M \<le> length xs") (simp_all add: min_def)
  next
    case False
    then show ?thesis
      unfolding py_slice_def Let_def a b M_def [symmetric] by (simp add: min_def)
  qed
qed

lemma take_drop_as_nth:
  "take k (drop a xs) = map ((!) xs) [a ..< min (a + k) (length xs)]"
proof (rule nth_equalityI)
  show "length (take k (drop a xs)) = length (map ((!) xs) [a ..< min (a + k) (length xs)])"
    by (auto simp: min_def)
next
  fix i assume "i < length (take k (drop a xs))"
  then have i: "i < k" "a + i < length xs" by auto
  then have "take k (drop a xs) ! i = xs ! (a + i)" by simp
  moreover have "map ((!) xs) [a ..< min (a + k) (length xs)] ! i = xs ! (a + i)"
    using i by (simp add: min_def)
  ultimately show "take k (drop a xs) ! i = map ((!) xs) [a ..< min (a + k) (length xs)] ! i"
    by simp
qed

lemma concat_chunks:
  "concat (map (\<lambda>i. take M (drop (i * M) xs)) [0 ..< k]) = take (k * M) xs"
proof (induction k)
  case 0
  show ?case by simp
next
  case (Suc k)
  have "take (k * M) xs @ take M (drop (k * M) xs) = take (k * M + M) xs"
    by (simp add: take_add)
  then show ?case by (simp add: Suc add.commute)
qed

lemma num_files_nat:
  assumes "0 < m"
  shows "nat ((int n + m - 1) div m) = (n + nat m - 1) div nat m"
proof -
  have "int n + m - 1 = int (n + nat m - 1)" using assms by simp
  moreover have "m = int (nat m)" using assms by simp
  ultimately have "(int n + m - 1) div m = int ((n + nat m - 1) div nat m)"
    by (metis zdiv_int)
  then show ?thesis by simp
qed

lemma chunks_cover:
  assumes "0 < (M::nat)"
  shows "n \<le> (n + M - 1) div M * M"
proof -
  have "(n + M - 1) mod M < M" using assms by simp
  moreover have "(n + M - 1) div M * M + (n + M - 1) mod M = n + M - 1" by simp
  ultimately show ?thesis by linarith
qed


lemma ceil_div_aux:
  fixes a m :: int
  assumes "0 < m"
  shows "(a + m - 1) div m = - (- a div m)"
proof -
  define q where "q = a div m"
  define r where "r = a mod m"
  have a: "a = m * q + r" by (simp add: q_def r_def)
  have r: "0 \<le> r" "r < m" using assms by (simp_all add: r_def)
  show ?thesis
  proof (cases "r = 0")
    case True
    have "(a + m - 1) div m = q"
      by (rule int_div_pos_eq [where r = "m - 1"]) (use a True assms in auto)
    moreover have "- a div m = - q"
      by (rule int_div_pos_eq [where r = 0]) (use a True assms in auto)
    ultimately show ?thesis by simp
  next
    case False
    have "(a + m - 1) div m = q + 1"
      by (rule int_div_pos_eq [where r = "r - 1"]) (use a False r in \<open>auto simp: algebra_simps\<close>)
    moreover have "- a div m = - q - 1"
      by (rule int_div_pos_eq [where r = "m - r"]) (use a False r in \<open>auto simp: algebra_simps\<close>)
    ultimately show ?thesis by simp
  qed
qed

lemma ceil_div:
  fixes m :: int
  assumes "0 < m"
  shows "(int n + m - 1) div m = \<lceil>real n / real_of_int m\<rceil>"
proof -
  have "\<lceil>real n / real_of_int m\<rceil> = \<lceil>real_of_int (int n) / real_of_int m\<rceil>" by simp
  also have "\<dots> = - (- int n div m)" by (rule ceiling_divide_eq_div)
  finally show ?thesis using ceil_div_aux [OF assms, of "int n"] by simp
qed

lemma csv_parts:
  assumes "0 < m"
  shows "csv_save_table h t file_path (Some m) =
     map (\<lambda>i. (file_path @ ''_part'' @ str_int (int i + 1) @ ''.csv'',
                 \<lparr>csv_header = list_objects h (headers t),
                  csv_rows = map (list_objects h) (take (nat m) (drop (i * nat m) (rows t)))\<rparr>))
       [0 ..< (length (rows t) + nat m - 1) div nat m]"
  using assms by (simp add: csv_save_table_def py_slice_chunk num_files_nat)

lemma pickle_parts:
  assumes "0 < m"
  shows "pickle_save_table h t file_path (Some m) =
     map (\<lambda>i. (file_path @ ''_part'' @ str_int (int i + 1) @ ''.pkl'',
                 pickle_dump h (Table h (headers t) (take (nat m) (drop (i * nat m) (rows t))))))
       [0 ..< (length (rows t) + nat m - 1) div nat m]"
  using assms by (simp add: pickle_save_table_def py_slice_chunk num_files_nat)

lemma concat_row_chunks:
  assumes "0 < (M::nat)"
  shows "concat (map (\<lambda>i. map f (take M (drop (i * M) xs))) [0 ..< (length xs + M - 1) div M])
           = map f xs"
proof -
  have "concat (map (\<lambda>i. map f (take M (drop (i * M) xs))) [0 ..< (length xs + M - 1) div M])
          = map f (concat (map (\<lambda>i. take M (drop (i * M) xs)) [0 ..< (length xs + M - 1) div M]))"
    by (simp add: map_concat comp_def)
  also have "\<dots> = map f (take ((length xs + M - 1) div M * M) xs)"
    by (simp only: concat_chunks)
  also have "\<dots> = map f xs"
    using chunks_cover [OF assms, of "length xs"] by simp
  finally show ?thesis .
qed

text \<open>
  C8. With \<^verbatim>\<open>max_rows = m\<close> and \<open>m \<ge> 1\<close>, both \<^verbatim>\<open>save_table\<close> functions write
  \<open>\<lceil>len(rows) / m\<rceil>\<close> files. The \<open>k\<close>-th file written (counting from 1) has the path
  \<^verbatim>\<open>file_path + "_part" + str(k)\<close> followed by the extension, the column names of the
  table, and exactly the rows at the positions \<open>(k - 1) * m \<le> i < min (k * m) (len(rows))\<close>.
  The rows of all the files, in the order of writing, are the rows of the table.
\<close>

theorem save_table_parts:
  assumes "1 \<le> m"
  shows
    "length (csv_save_table h t file_path (Some m)) = nat \<lceil>real (length (rows t)) / real_of_int m\<rceil>
     \<and> (\<forall>k. 1 \<le> k \<and> k \<le> length (csv_save_table h t file_path (Some m)) \<longrightarrow>
          csv_save_table h t file_path (Some m) ! (k - 1) =
            (file_path @ ''_part'' @ str_int (int k) @ ''.csv'',
             \<lparr>csv_header = header_names h t,
              csv_rows = map (\<lambda>i. list_objects h (rows t ! i))
                [(k - 1) * nat m ..< min (k * nat m) (length (rows t))]\<rparr>))
     \<and> concat (map (\<lambda>p. csv_rows (snd p)) (csv_save_table h t file_path (Some m))) = row_values h t
     \<and> length (pickle_save_table h t file_path (Some m)) = nat \<lceil>real (length (rows t)) / real_of_int m\<rceil>
     \<and> (\<forall>k. 1 \<le> k \<and> k \<le> length (pickle_save_table h t file_path (Some m)) \<longrightarrow>
          fst (pickle_save_table h t file_path (Some m) ! (k - 1)) =
            file_path @ ''_part'' @ str_int (int k) @ ''.pkl''
          \<and> pickled_headers (snd (pickle_save_table h t file_path (Some m) ! (k - 1))) =
              header_names h t
          \<and> pickled_rows (snd (pickle_save_table h t file_path (Some m) ! (k - 1))) =
              map (\<lambda>i. list_objects h (rows t ! i))
                [(k - 1) * nat m ..< min (k * nat m) (length (rows t))])
     \<and> concat (map (\<lambda>p. pickled_rows (snd p)) (pickle_save_table h t file_path (Some m)))
         = row_values h t"
proof -
  define M where "M = nat m"
  define n where "n = length (rows t)"
  define K where "K = (n + M - 1) div M"
  have m: "0 < m" "0 < M" using assms by (simp_all add: M_def)
  have count: "K = nat \<lceil>real n / real_of_int m\<rceil>"
    using num_files_nat [OF m(1), of n] ceil_div [OF m(1), of n] by (simp add: K_def M_def)
  have chunk: "map (list_objects h) (take M (drop ((k - 1) * M) (rows t)))
      = map (\<lambda>i. list_objects h (rows t ! i)) [(k - 1) * M ..< min (k * M) n]" if "1 \<le> k" for k
  proof -
    have "(k - 1) * M + M = k * M" using that by (simp add: algebra_simps flip: mult_Suc)
    then show ?thesis
      by (simp add: take_drop_as_nth n_def comp_def)
  qed
  have suffix: "int (k - 1) + 1 = int k" if "1 \<le> k" for k
    using that by simp
  have csv: "csv_save_table h t file_path (Some m) =
     map (\<lambda>i. (file_path @ ''_part'' @ str_int (int i + 1) @ ''.csv'',
                 \<lparr>csv_header = list_objects h (headers t),
                  csv_rows = map (list_objects h) (take M (drop (i * M) (rows t)))\<rparr>)) [0 ..< K]"
    unfolding M_def K_def n_def by (rule csv_parts [OF m(1)])
  have pkl: "pickle_save_table h t file_path (Some m) =
     map (\<lambda>i. (file_path @ ''_part'' @ str_int (int i + 1) @ ''.pkl'',
                 pickle_dump h (Table h (headers t) (take M (drop (i * M) (rows t)))))) [0 ..< K]"
    unfolding M_def K_def n_def by (rule pickle_parts [OF m(1)])
  have c1: "length (csv_save_table h t file_path (Some m)) = nat \<lceil>real (length (rows t)) / real_of_int m\<rceil>"
    using count by (simp add: csv n_def)
  have c2: "csv_save_table h t file_path (Some m) ! (k - 1) =
            (file_path @ ''_part'' @ str_int (int k) @ ''.csv'',
             \<lparr>csv_header = header_names h t,
              csv_rows = map (\<lambda>i. list_objects h (rows t ! i))
                [(k - 1) * nat m ..< min (k * nat m) (length (rows t))]\<rparr>)"
    if "1 \<le> k \<and> k \<le> length (csv_save_table h t file_path (Some m))" for k
  proof -
    from that have k: "1 \<le> k" "k - 1 < K" by (auto simp: csv)
    show ?thesis
      unfolding csv using k chunk [OF k(1)] suffix [OF k(1)]
      by (simp add: header_names_def flip: M_def n_def)
  qed
  have c3: "concat (map (\<lambda>p. csv_rows (snd p)) (csv_save_table h t file_path (Some m))) = row_values h t"
    unfolding csv K_def n_def row_values_def
    using concat_row_chunks [OF m(2), of "list_objects h" "rows t"] by (simp add: comp_def)
  have p1: "length (pickle_save_table h t file_path (Some m)) = nat \<lceil>real (length (rows t)) / real_of_int m\<rceil>"
    using count by (simp add: pkl n_def)
  have p2: "fst (pickle_save_table h t file_path (Some m) ! (k - 1)) =
            file_path @ ''_part'' @ str_int (int k) @ ''.pkl''
          \<and> pickled_headers (snd (pickle_save_table h t file_path (Some m) ! (k - 1))) =
              header_names h t
          \<and> pickled_rows (snd (pickle_save_table h t file_path (Some m) ! (k - 1))) =
              map (\<lambda>i. list_objects h (rows t ! i))
                [(k - 1) * nat m ..< min (k * nat m) (length (rows t))]"
    if "1 \<le> k \<and> k \<le> length (pickle_save_table h t file_path (Some m))" for k
  proof -
    from that have k: "1 \<le> k" "k - 1 < K" by (auto simp: pkl)
    show ?thesis
      unfolding pkl using k chunk [OF k(1)] suffix [OF k(1)]
      by (simp add: header_names_def pickle_dump_def Table_def flip: M_def n_def)
  qed
  have p3: "concat (map (\<lambda>p. pickled_rows (snd p)) (pickle_save_table h t file_path (Some m)))
         = row_values h t"
    unfolding pkl K_def n_def row_values_def
    using concat_row_chunks [OF m(2), of "list_objects h" "rows t"]
    by (simp add: comp_def pickle_dump_def Table_def)
  from c1 c2 c3 p1 p2 p3 show ?thesis by blast
qed


lemma str_int_2: "str_int 2 = ''2''"
  by (simp add: str_int_def str_nat.simps)

theorem save_table_parts_witness:
  "length (csv_save_table example_heap people ''out'' (Some 1)) = 2
   \<and> csv_save_table example_heap people ''out'' (Some 1) ! 1 =
       (''out_part2.csv'',
        \<lparr>csv_header = [VStr ''id'', VStr ''Age''], csv_rows = [[VStr ''2'', VStr ''40'']]\<rparr>)
   \<and> length (pickle_save_table example_heap people ''out'' (Some 1)) = 2
   \<and> fst (pickle_save_table example_heap people ''out'' (Some 1) ! 1) = ''out_part2.pkl''
   \<and> pickled_rows (snd (pickle_save_table example_heap people ''out'' (Some 1) ! 1)) =
       [[VStr ''2'', VStr ''40'']]"
proof -
  have len: "length (rows people) = 2" "rows people ! Suc 0 = 12"
    by (simp_all add: people_def Table_def)
  have row: "list_objects example_heap 12 = [VStr ''2'', VStr ''40'']"
    by (simp add: example_heap_def)
  have names: "header_names example_heap people = [VStr ''id'', VStr ''Age'']"
    by (simp add: header_names_def people_def Table_def example_heap_def)
  have range: "[(2 - 1) * nat 1 ..< min (2 * nat 1) (2::nat)] = [1]"
    by (simp add: upt_rec)
  note T = save_table_parts [of 1 example_heap people "''out''"]
  from T have c1: "length (csv_save_table example_heap people ''out'' (Some 1)) = 2"
    by (simp add: len)
  from T have p1: "length (pickle_save_table example_heap people ''out'' (Some 1)) = 2"
    by (simp add: len)
  from T have "1 \<le> (2::nat) \<and> 2 \<le> length (csv_save_table example_heap people ''out'' (Some 1)) \<longrightarrow>
          csv_save_table example_heap people ''out'' (Some 1) ! (2 - 1) =
            (''out'' @ ''_part'' @ str_int (int 2) @ ''.csv'',
             \<lparr>csv_header = header_names example_heap people,
              csv_rows = map (\<lambda>i. list_objects example_heap (rows people ! i))
                [(2 - 1) * nat 1 ..< min (2 * nat 1) (length (rows people))]\<rparr>)"
    by blast
  then have c2: "csv_save_table example_heap people ''out'' (Some 1) ! 1 =
       (''out_part2.csv'',
        \<lparr>csv_header = [VStr ''id'', VStr ''Age''], csv_rows = [[VStr ''2'', VStr ''40'']]\<rparr>)"
    unfolding len range by (simp add: c1 str_int_2 names len row)
  from T have "1 \<le> (2::nat) \<and> 2 \<le> length (pickle_save_table example_heap people ''out'' (Some 1)) \<longrightarrow>
          fst (pickle_save_table example_heap people ''out'' (Some 1) ! (2 - 1)) =
            ''out'' @ ''_part'' @ str_int (int 2) @ ''.pkl''
          \<and> pickled_headers (snd (pickle_save_table example_heap people ''out'' (Some 1) ! (2 - 1))) =
              header_names example_heap people
          \<and> pickled_rows (snd (pickle_save_table example_heap people ''out'' (Some 1) ! (2 - 1))) =
              map (\<lambda>i. list_objects example_heap (rows people ! i))
                [(2 - 1) * nat 1 ..< min (2 * nat 1) (length (rows people))]"
    by blast
  then have p2: "fst (pickle_save_table example_heap people ''out'' (Some 1) ! 1) = ''out_part2.pkl''
     \<and> pickled_rows (snd (pickle_save_table example_heap people ''out'' (Some 1) ! 1)) =
       [[VStr ''2'', VStr ''40'']]"
    unfolding len range by (simp add: p1 str_int_2 names len row)
  from c1 c2 p1 p2 show ?thesis by simp
qed

section \<open>Properties of the column arithmetic\<close>

lemma row_result_operands:
  assumes "operand F row i1 = Inr x" and "operand F row i2 = Inr y"
  shows "row_result F operation row i1 i2 = Inr (operation x y)"
proof -
  from assms(1) obtain c1 where c1: "py_getitem row i1 = Inr c1" "py_float F c1 = Inr x"
    by (auto simp: operand_def split: sum.splits)
  from assms(2) obtain c2 where c2: "py_getitem row i2 = Inr c2" "py_float F c2 = Inr y"
    by (auto simp: operand_def split: sum.splits)
  show ?thesis
    by (simp add: row_result_def c1 c2 convert_to_numeric_def)
qed

lemma result_values_map:
  "(\<And>a. a \<in> set rs \<Longrightarrow> row_result F operation (list_objects h a) i1 i2 = Inr (g a))
     \<Longrightarrow> result_values F operation h i1 i2 rs = Inr (map g rs)"
  by (induction rs) simp_all

lemma list_objects_append_results:
  "list_objects (append_results h rs (map g rs)) a =
     list_objects h a @ replicate (count_list rs a) (VFloat (g a))"
proof (induction rs arbitrary: h)
  case Nil
  show ?case by simp
next
  case (Cons r rs)
  show ?case
    by (simp add: Cons.IH replicate_append_same)
qed

lemma apply_operation_effect:
  assumes c1: "column_index h t column1 = Inr i1" and c2: "column_index h t column2 = Inr i2"
    and ok: "\<And>a. a \<in> set (rows t) \<Longrightarrow>
          operand F (list_objects h a) i1 = Inr (x a) \<and> operand F (list_objects h a) i2 = Inr (y a)"
  shows "apply_operation F h t column1 column2 result_column operation =
     (Inr (),
      \<lparr>list_objects = \<lambda>a.
         (if a = headers t then list_objects h a @ [VStr result_column] else list_objects h a)
           @ replicate (count_list (rows t) a) (VFloat (operation (x a) (y a)))\<rparr>)"
proof -
  define g where "g = (\<lambda>a. operation (x a) (y a))"
  have "row_result F operation (list_objects h a) i1 i2 = Inr (g a)" if "a \<in> set (rows t)" for a
    using ok [OF that] by (simp add: row_result_operands g_def)
  then have vs: "result_values F operation h i1 i2 (rows t) = Inr (map g (rows t))"
    by (rule result_values_map)
  define h1 where "h1 = h\<lparr>list_objects :=
      (list_objects h)(headers t := list_objects h (headers t) @ [VStr result_column])\<rparr>"
  have "append_results h1 (rows t) (map g (rows t)) =
      \<lparr>list_objects = \<lambda>a. list_objects h1 a @ replicate (count_list (rows t) a) (VFloat (g a))\<rparr>"
    by (rule heap.equality) (auto simp: list_objects_append_results)
  moreover have "list_objects h1 a =
      (if a = headers t then list_objects h a @ [VStr result_column] else list_objects h a)" for a
    by (simp add: h1_def)
  ultimately show ?thesis
    by (simp add: apply_operation_def c1 c2 vs g_def flip: h1_def)
qed

lemma operands_choice:
  assumes "\<forall>a \<in> set rs. \<exists>x y. operand F (list_objects h a) i1 = Inr x
             \<and> operand F (list_objects h a) i2 = Inr y"
  shows "\<exists>x y. \<forall>a \<in> set rs.
          operand F (list_objects h a) i1 = Inr (x a) \<and> operand F (list_objects h a) i2 = Inr (y a)"
proof -
  from assms have "\<forall>a \<in> set rs. \<exists>p. operand F (list_objects h a) i1 = Inr (fst p)
             \<and> operand F (list_objects h a) i2 = Inr (snd p)"
    by auto
  then obtain f where "\<forall>a \<in> set rs. operand F (list_objects h a) i1 = Inr (fst (f a))
             \<and> operand F (list_objects h a) i2 = Inr (snd (f a))"
    by (rule bchoice [THEN exE])
  then show ?thesis
    by (intro exI [of _ "\<lambda>a. fst (f a)"] exI [of _ "\<lambda>a. snd (f a)"])
qed

lemma count_list_distinct: "distinct xs \<Longrightarrow> a \<in> set xs \<Longrightarrow> count_list xs a = 1"
  by (induction xs) (auto simp: count_list_0_iff)

lemma list_index_None: "list_index xs x = None \<longleftrightarrow> x \<notin> set xs"
  by (induction xs) auto

lemma unknown_column_name:
  "VStr s \<notin> set (header_names h t) \<Longrightarrow>
     apply_operation F h t (Name s) column2 result_column operation
       = (Inl (ValueError Not_in_list), h)"
  "VStr s \<notin> set (header_names h t) \<Longrightarrow> column_index h t column1 = Inr i1 \<Longrightarrow>
     apply_operation F h t column1 (Name s) result_column operation
       = (Inl (ValueError Not_in_list), h)"
  by (simp_all add: apply_operation_def column_index_def header_names_def
      list_index_None [THEN iffD2])

lemma last_replicate_append: "0 < n \<Longrightarrow> last (xs @ replicate n v) = v"
  by (cases n) simp_all

text \<open>Values of the binary64 arithmetic that the examples need.\<close>

lemma b64_of_str_examples:
  "b64_of_str ''30'' = Some (Finite 30)"
  "b64_of_str ''40'' = Some (Finite 40)"
  "b64_of_str ''3'' = Some (Finite 3)"
  "b64_of_str ''0'' = Some (Finite 0)"
  "b64_of_str ''n/a'' = None"
  "b64_of_str ''1'' = Some (Finite 1)"
  "b64_of_str ''2'' = Some (Finite 2)"
  by code_simp+

lemma b64_arith_examples:
  "b64_add (Finite 30) (Finite 30) = Finite 60"
  "b64_add (Finite 40) (Finite 40) = Finite 80"
  "b64_add (Finite 3) (Finite 0) = Finite 3"
  "b64_sub (Finite 3) (Finite 0) = Finite 3"
  "b64_mul (Finite 3) (Finite 0) = Finite 0"
  "b64_ne_zero (Finite 0) = False"
  "b64_add (Finite 1) (Finite 2) = Finite 3"
  by code_simp+

lemmas ev = add_def sub_def mul_def div_table_def add_operation_def sub_operation_def
  mul_operation_def div_operation_def apply_operation_def column_index_def row_result_def
  py_getitem_def convert_to_numeric_def py_float_def except_handler_def binary64_ops_def
  example_heap_def people_def people_twice_def own_header_def stock_def stock_bad_def
  Table_def
  b64_of_str_examples b64_arith_examples

lemma stock_bad_fails:
  "fst (add binary64_ops example_heap stock_bad (Name ''price'') (Name ''count'') ''total'')
     = Inl (ValueError Cannot_apply_operation)"
  by (simp add: ev)

text \<open>
  C2. In a row whose two operand cells convert to floats \<open>x\<close> and \<open>y\<close>, the body of the
  loop does not raise: under \<^verbatim>\<open>div\<close> with \<^verbatim>\<open>y == 0\<close> its result is the value of
  \<^verbatim>\<open>float('inf')\<close>, and under \<^verbatim>\<open>add\<close>, \<^verbatim>\<open>sub\<close> and \<^verbatim>\<open>mul\<close> it is \<^verbatim>\<open>x + y\<close>, \<^verbatim>\<open>x - y\<close> and
  \<^verbatim>\<open>x * y\<close>, zero operand or not. When moreover the two columns resolve and the
  operand cells of every row of the table convert, the call returns normally and that
  value is the trailing cell of the row after the call.
\<close>

theorem zero_divisor_gives_inf:
  assumes "operand F (list_objects h a) i1 = Inr x" and "operand F (list_objects h a) i2 = Inr y"
  shows "(\<not> float_ne_zero F y \<longrightarrow>
            row_result F (div_operation F) (list_objects h a) i1 i2 = Inr (float_inf F))
     \<and> row_result F (add_operation F) (list_objects h a) i1 i2 = Inr (float_add F x y)
     \<and> row_result F (sub_operation F) (list_objects h a) i1 i2 = Inr (float_sub F x y)
     \<and> row_result F (mul_operation F) (list_objects h a) i1 i2 = Inr (float_mul F x y)
     \<and> (column_index h t column1 = Inr i1 \<and> column_index h t column2 = Inr i2
          \<and> a \<in> set (rows t)
          \<and> (\<forall>r \<in> set (rows t). \<exists>x y. operand F (list_objects h r) i1 = Inr x
                \<and> operand F (list_objects h r) i2 = Inr y)
        \<longrightarrow> fst (div_table F h t column1 column2 result_column) = Inr ()
          \<and> (\<not> float_ne_zero F y \<longrightarrow>
                last (list_objects (snd (div_table F h t column1 column2 result_column)) a)
                  = VFloat (float_inf F))
          \<and> last (list_objects (snd (add F h t column1 column2 result_column)) a)
              = VFloat (float_add F x y)
          \<and> last (list_objects (snd (sub F h t column1 column2 result_column)) a)
              = VFloat (float_sub F x y)
          \<and> last (list_objects (snd (mul F h t column1 column2 result_column)) a)
              = VFloat (float_mul F x y))"
proof -
  have row: "row_result F operation (list_objects h a) i1 i2 = Inr (operation x y)" for operation
    using assms(1) assms(2) by (rule row_result_operands)
  have ops: "\<not> float_ne_zero F y \<Longrightarrow> div_operation F x y = float_inf F"
    "add_operation F x y = float_add F x y"
    "sub_operation F x y = float_sub F x y" "mul_operation F x y = float_mul F x y"
    by (simp_all add: div_operation_def add_operation_def sub_operation_def mul_operation_def)
  have table: "fst (apply_operation F h t column1 column2 result_column operation) = Inr ()
      \<and> last (list_objects (snd (apply_operation F h t column1 column2 result_column operation)) a)
          = VFloat (operation x y)"
    if c: "column_index h t column1 = Inr i1" "column_index h t column2 = Inr i2"
      and a: "a \<in> set (rows t)"
      and ok: "\<forall>r \<in> set (rows t). \<exists>x y. operand F (list_objects h r) i1 = Inr x
                \<and> operand F (list_objects h r) i2 = Inr y"
    for operation
  proof -
    from operands_choice [OF ok] obtain xs ys where "\<forall>r \<in> set (rows t).
          operand F (list_objects h r) i1 = Inr (xs r) \<and> operand F (list_objects h r) i2 = Inr (ys r)"
      by blast
    then have xy: "\<And>r. r \<in> set (rows t) \<Longrightarrow>
          operand F (list_objects h r) i1 = Inr (xs r) \<and> operand F (list_objects h r) i2 = Inr (ys r)"
      by blast
    from xy [OF a] assms(1) assms(2) have here: "xs a = x" "ys a = y" by simp_all
    have "count_list (rows t) a \<noteq> 0"
      using a by (simp add: count_list_0_iff)
    then have pos: "0 < count_list (rows t) a" by simp
    have "apply_operation F h t column1 column2 result_column operation =
     (Inr (),
      \<lparr>list_objects = \<lambda>a.
         (if a = headers t then list_objects h a @ [VStr result_column] else list_objects h a)
           @ replicate (count_list (rows t) a) (VFloat (operation (xs a) (ys a)))\<rparr>)"
      using c xy by (rule apply_operation_effect)
    then show ?thesis
      by (simp add: here last_replicate_append [OF pos])
  qed
  show ?thesis
    using table [of "div_operation F"] table [of "add_operation F"]
      table [of "sub_operation F"] table [of "mul_operation F"]
    by (simp add: row ops div_table_def add_def sub_def mul_def)
qed

theorem zero_divisor_gives_inf_witness:
  "fst (div_table binary64_ops example_heap stock (Name ''price'') (Name ''count'') ''ratio'')
     = Inr ()
   \<and> last (list_objects (snd (div_table binary64_ops example_heap stock (Name ''price'')
        (Name ''count'') ''ratio'')) 31) = VFloat PosInf
   \<and> last (list_objects (snd (add binary64_ops example_heap stock (Name ''price'')
        (Name ''count'') ''ratio'')) 31) = VFloat (Finite 3)
   \<and> last (list_objects (snd (sub binary64_ops example_heap stock (Name ''price'')
        (Name ''count'') ''ratio'')) 31) = VFloat (Finite 3)
   \<and> last (list_objects (snd (mul binary64_ops example_heap stock (Name ''price'')
        (Name ''count'') ''ratio'')) 31) = VFloat (Finite 0)"
proof -
  have x: "operand binary64_ops (list_objects example_heap 31) 0 = Inr (Finite 3)"
    and y: "operand binary64_ops (list_objects example_heap 31) 1 = Inr (Finite 0)"
    by (simp_all add: operand_def ev)
  have zero: "\<not> float_ne_zero binary64_ops (Finite 0)"
    by (simp add: ev)
  have cols: "column_index example_heap stock (Name ''price'') = Inr 0"
    "column_index example_heap stock (Name ''count'') = Inr 1"
    by (simp_all add: ev)
  have rows: "rows stock = [31]"
    by (simp add: ev)
  have ops: "float_inf binary64_ops = PosInf"
    "float_add binary64_ops (Finite 3) (Finite 0) = Finite 3"
    "float_sub binary64_ops (Finite 3) (Finite 0) = Finite 3"
    "float_mul binary64_ops (Finite 3) (Finite 0) = Finite 0"
    by (simp_all add: ev)
  from zero_divisor_gives_inf [OF x y, of stock "Name ''price''" "Name ''count''" "''ratio''"]
  show ?thesis
    unfolding ops by (simp add: zero cols rows x y)
qed

text \<open>
  C3. The claim: a column index outside \<open>[0, len(columns))\<close> makes the operation fail
  with the module's \<^verbatim>\<open>ValueError\<close>, as an unknown column name does
  (\<open>unknown_column_name\<close>). The code does not check an index at all, unlike
  \<^verbatim>\<open>set_column_types\<close> (line 119). On the table \<open>people\<close>, which has two columns and two
  rows: the index 5 raises \<^verbatim>\<open>IndexError\<close> from the subscript of line 148; the index -1
  is accepted and counts from the end of each row, so the call returns normally and
  adds \<^verbatim>\<open>Age + Age\<close>; and on a table with no rows the index 5 is accepted, the call
  returns normally.
\<close>

theorem index_not_checked:
  "fst (add binary64_ops example_heap people (Index 5) (Index 0) ''r'') = Inl IndexError
   \<and> fst (add binary64_ops example_heap people (Index (- 1)) (Index (- 1)) ''r'') = Inr ()
   \<and> list_objects (snd (add binary64_ops example_heap people (Index (- 1)) (Index (- 1)) ''r'')) 11
       = [VStr ''1'', VStr ''30'', VFloat (Finite 60)]
   \<and> fst (add binary64_ops example_heap (Table example_heap 10 []) (Index 5) (Index 5) ''r'')
       = Inr ()"
  by (simp add: ev)

text \<open>
  C4. When \<^verbatim>\<open>_apply_operation\<close> raises, whatever the exception, the store after the call
  is the store before it: no name has been appended to the header list and no cell to
  any row, so the table reads as before.
\<close>

theorem apply_operation_failure_leaves_store:
  "fst (apply_operation F h t column1 column2 result_column operation) = Inl e
     \<Longrightarrow> snd (apply_operation F h t column1 column2 result_column operation) = h
       \<and> header_names (snd (apply_operation F h t column1 column2 result_column operation)) t
           = header_names h t
       \<and> row_values (snd (apply_operation F h t column1 column2 result_column operation)) t
           = row_values h t"
  by (auto simp: apply_operation_def split: sum.splits)

theorem apply_operation_failure_leaves_store_witness:
  "fst (add binary64_ops example_heap stock_bad (Name ''price'') (Name ''count'') ''total'')
     = Inl (ValueError Cannot_apply_operation)
   \<and> snd (add binary64_ops example_heap stock_bad (Name ''price'') (Name ''count'') ''total'')
     = example_heap"
proof -
  have "fst (apply_operation binary64_ops example_heap stock_bad (Name ''price'') (Name ''count'')
      ''total'' (add_operation binary64_ops)) = Inl (ValueError Cannot_apply_operation)"
    using stock_bad_fails by (simp add: add_def)
  with apply_operation_failure_leaves_store [OF this] show ?thesis
    by (simp add: add_def)
qed

text \<open>
  C7, as stated, fails where list objects are shared. In the table that
  \<^verbatim>\<open>concat(people, people)\<close> returns, each row list stands twice: the second loop appends
  to the same list object once for each of its positions in \<^verbatim>\<open>table.rows\<close>, so the row
  gains two cells, not one. In \<^verbatim>\<open>Table(h, [h])\<close> the only row is the header list: line 153
  appends the result name to it and line 155 the result, so the row gains two cells
  and the column names end with a number.
\<close>

theorem aliased_rows_gain_two_cells:
  "concat_table example_heap people people = Inr people_twice
   \<and> list_objects example_heap 11 = [VStr ''1'', VStr ''30'']
   \<and> fst (add binary64_ops example_heap people_twice (Name ''Age'') (Name ''Age'') ''AgeTwice'')
       = Inr ()
   \<and> list_objects (snd (add binary64_ops example_heap people_twice (Name ''Age'') (Name ''Age'')
         ''AgeTwice'')) 11
       = [VStr ''1'', VStr ''30'', VFloat (Finite 60), VFloat (Finite 60)]
   \<and> headers own_header = 40 \<and> rows own_header = [40]
   \<and> list_objects example_heap 40 = [VStr ''1'', VStr ''2'']
   \<and> fst (add binary64_ops example_heap own_header (Index 0) (Index 1) ''r'') = Inr ()
   \<and> list_objects (snd (add binary64_ops example_heap own_header (Index 0) (Index 1) ''r'')) 40
       = [VStr ''1'', VStr ''2'', VStr ''r'', VFloat (Finite 3)]"
  by (simp add: ev concat_table_def)

text \<open>
  C7, amended by a hypothesis on the list objects of the table: its row lists are
  pairwise distinct and none of them is its header list. When the two columns
  resolve and the operand cells of every row convert to floats, the call returns
  normally; the header list of the table has the result name as its new last entry
  after its entries of before; every row of the table has exactly one new trailing
  cell, the operation applied to its two converted operands, after its cells of
  before; and every other list object is unchanged. The witness is the example of the
  specification.
\<close>

theorem apply_operation_appends:
  assumes "column_index h t column1 = Inr i1" and "column_index h t column2 = Inr i2"
    and "distinct (rows t)" and "headers t \<notin> set (rows t)"
    and "\<forall>a \<in> set (rows t). \<exists>x y. operand F (list_objects h a) i1 = Inr x
             \<and> operand F (list_objects h a) i2 = Inr y"
  shows "\<exists>h'. apply_operation F h t column1 column2 result_column operation = (Inr (), h')
     \<and> list_objects h' (headers t) = list_objects h (headers t) @ [VStr result_column]
     \<and> (\<forall>a \<in> set (rows t). \<exists>x y.
           operand F (list_objects h a) i1 = Inr x \<and> operand F (list_objects h a) i2 = Inr y
           \<and> list_objects h' a = list_objects h a @ [VFloat (operation x y)])
     \<and> (\<forall>a. a \<noteq> headers t \<and> a \<notin> set (rows t) \<longrightarrow> list_objects h' a = list_objects h a)"
proof -
  from operands_choice [OF assms(5)] obtain x y where "\<forall>a \<in> set (rows t).
          operand F (list_objects h a) i1 = Inr (x a) \<and> operand F (list_objects h a) i2 = Inr (y a)"
    by blast
  then have xy: "\<And>a. a \<in> set (rows t) \<Longrightarrow>
          operand F (list_objects h a) i1 = Inr (x a) \<and> operand F (list_objects h a) i2 = Inr (y a)"
    by blast
  have once: "count_list (rows t) a = 1" if "a \<in> set (rows t)" for a
    using assms(3) that by (rule count_list_distinct)
  have never: "count_list (rows t) a = 0" if "a \<notin> set (rows t)" for a
    using that by (simp add: count_list_0_iff)
  have other: "a \<noteq> headers t" if "a \<in> set (rows t)" for a
    using assms(4) that by blast
  define h' where "h' =
      \<lparr>list_objects = \<lambda>a.
         (if a = headers t then list_objects h a @ [VStr result_column] else list_objects h a)
           @ replicate (count_list (rows t) a) (VFloat (operation (x a) (y a)))\<rparr>"
  have "apply_operation F h t column1 column2 result_column operation = (Inr (), h')"
    unfolding h'_def using assms(1) assms(2) xy by (rule apply_operation_effect)
  moreover have "list_objects h' (headers t) = list_objects h (headers t) @ [VStr result_column]"
    using assms(4) by (simp add: h'_def never)
  moreover have "\<forall>a. a \<noteq> headers t \<and> a \<notin> set (rows t) \<longrightarrow> list_objects h' a = list_objects h a"
    by (simp add: h'_def never)
  moreover have "\<forall>a \<in> set (rows t). \<exists>x y.
           operand F (list_objects h a) i1 = Inr x \<and> operand F (list_objects h a) i2 = Inr y
           \<and> list_objects h' a = list_objects h a @ [VFloat (operation x y)]"
    by (simp add: h'_def once other xy)
  ultimately show ?thesis by blast
qed

theorem apply_operation_appends_witness:
  "fst (add binary64_ops example_heap people (Name ''Age'') (Name ''Age'') ''AgeTwice'') = Inr ()
   \<and> header_names (snd (add binary64_ops example_heap people (Name ''Age'') (Name ''Age'')
        ''AgeTwice'')) people = [VStr ''id'', VStr ''Age'', VStr ''AgeTwice'']
   \<and> row_values (snd (add binary64_ops example_heap people (Name ''Age'') (Name ''Age'')
        ''AgeTwice'')) people =
       [[VStr ''1'', VStr ''30'', VFloat (Finite 60)], [VStr ''2'', VStr ''40'', VFloat (Finite 80)]]"
proof -
  have cols: "column_index example_heap people (Name ''Age'') = Inr 1"
    by (simp add: ev)
  have fields: "rows people = [11, 12]" "headers people = 10"
    by (simp_all add: ev)
  have r1: "operand binary64_ops [VStr ''1'', VStr ''30''] 1 = Inr (Finite 30)"
    and r2: "operand binary64_ops [VStr ''2'', VStr ''40''] 1 = Inr (Finite 40)"
    by (simp_all add: operand_def ev)
  have lists: "list_objects example_heap 10 = [VStr ''id'', VStr ''Age'']"
    "list_objects example_heap 11 = [VStr ''1'', VStr ''30'']"
    "list_objects example_heap 12 = [VStr ''2'', VStr ''40'']"
    by (simp_all add: example_heap_def)
  have sums: "add_operation binary64_ops (Finite 30) (Finite 30) = Finite 60"
    "add_operation binary64_ops (Finite 40) (Finite 40) = Finite 80"
    by (simp_all add: ev)
  have "distinct (rows people)" and "headers people \<notin> set (rows people)"
    and "\<forall>a \<in> set (rows people). \<exists>x y. operand binary64_ops (list_objects example_heap a) 1 = Inr x
             \<and> operand binary64_ops (list_objects example_heap a) 1 = Inr y"
    by (simp_all add: fields lists r1 r2)
  from apply_operation_appends [OF cols cols this, of "''AgeTwice''" "add_operation binary64_ops"]
  obtain h' where h': "add binary64_ops example_heap people (Name ''Age'') (Name ''Age'')
        ''AgeTwice'' = (Inr (), h')"
    "list_objects h' 10 = [VStr ''id'', VStr ''Age'', VStr ''AgeTwice'']"
    "list_objects h' 11 = [VStr ''1'', VStr ''30'', VFloat (Finite 60)]"
    "list_objects h' 12 = [VStr ''2'', VStr ''40'', VFloat (Finite 80)]"
    by (auto simp: add_def fields r1 r2 lists sums)
  then show ?thesis
    by (simp add: header_names_def row_values_def fields)
qed

end
